theory Spec2Isabelle
  imports Complex_Main
begin

section \<open>Curve flattening: \<^verbatim>\<open>Lib/defcon/tools/booleanOperations/flatten.py\<close>\<close>

text \<open>
  The module is Python 2 (\<^verbatim>\<open>_mid\<close> unpacks tuples in its parameter list). Coordinates are
  Python numbers; they are taken here as real numbers, so that every arithmetic step is the
  exact one: rounding error, overflow and the special values of binary floating point are
  outside this development. Flattened coordinates are Python ints, here \<^typ>\<open>int\<close>.

  A name of the source that starts with an underscore carries a prime instead:
  \<^verbatim>\<open>_lineTo\<close> is \<open>lineTo'\<close>, while \<open>lineTo\<close> is the public method inherited from
  \<^verbatim>\<open>fontTools.pens.basePen.BasePen\<close>.
\<close>

subsection \<open>Python built-ins\<close>

datatype error = IndexError | ZeroDivisionError | TypeError

text \<open>
  \<^verbatim>\<open>round(x)\<close> of Python 2 returns the nearest integral float, a tie going away from
  zero; \<^verbatim>\<open>int(x)\<close> truncates towards zero.
\<close>

definition py_round :: "real \<Rightarrow> real" where
  "py_round x = (if 0 \<le> x then of_int \<lfloor>x + 1/2\<rfloor> else - of_int \<lfloor>- x + 1/2\<rfloor>)"

definition py_int :: "real \<Rightarrow> int" where
  "py_int x = (if 0 \<le> x then \<lfloor>x\<rfloor> else \<lceil>x\<rceil>)"

text \<open>\<^verbatim>\<open>xs[-1]\<close> and \<^verbatim>\<open>xs[0]\<close>: \<open>None\<close> stands for the IndexError of an empty list.\<close>

definition idx_last :: "'a list \<Rightarrow> 'a option" where
  "idx_last xs = (if xs = [] then None else Some (last xs))"

definition idx_first :: "'a list \<Rightarrow> 'a option" where
  "idx_first xs = (case xs of [] \<Rightarrow> None | x # _ \<Rightarrow> Some x)"

subsection \<open>Objects\<close>

type_synonym point = "real \<times> real"
type_synonym ipoint = "int \<times> int"

text \<open>The four strings given as \<^verbatim>\<open>type\<close>: "move", "line", "curve", "qcurve".\<close>

datatype segtype = Move | Line | Curve | QCurve

record Segment =
  type :: segtype
  original :: "point list"
  flat :: "ipoint list"
  final :: "ipoint list option"

text \<open>\<^verbatim>\<open>Segment.__init__\<close>: a missing \<^verbatim>\<open>flat\<close> is a fresh empty list.\<close>

definition new_Segment :: "segtype \<Rightarrow> point list \<Rightarrow> ipoint list option \<Rightarrow> Segment" where
  "new_Segment ty orig fl =
     \<lparr>type = ty, original = orig, flat = (case fl of None \<Rightarrow> [] | Some f \<Rightarrow> f), final = None\<rparr>"

type_synonym Contour = "Segment list"

definition addSegment :: "Contour \<Rightarrow> segtype \<Rightarrow> point list \<Rightarrow> ipoint list option \<Rightarrow> Contour" where
  "addSegment c ty orig fl = c @ [new_Segment ty orig fl]"

definition get_original :: "Contour \<Rightarrow> (segtype \<times> point list) list" where
  "get_original c = map (\<lambda>segment. (type segment, original segment)) c"

definition get_flattened :: "Contour \<Rightarrow> ipoint list" where
  "get_flattened c = concat (map flat c)"

subsection \<open>Support functions\<close>

definition distance :: "point \<Rightarrow> point \<Rightarrow> real" where
  "distance pt1 pt2 = sqrt ((fst pt1 - fst pt2)\<^sup>2 + (snd pt1 - snd pt2)\<^sup>2)"

definition mid' :: "point \<Rightarrow> point \<Rightarrow> point" where
  "mid' p q = (0.5 * (fst p + fst q), 0.5 * (snd p + snd q))"

definition getCubicPoint' :: "real \<Rightarrow> point \<Rightarrow> point \<Rightarrow> point \<Rightarrow> point \<Rightarrow> point" where
  "getCubicPoint' t pt0 pt1 pt2 pt3 =
     (if t = 0 then pt0
      else if t = 1 then pt3
      else if t = 0.5 then
        (let a = mid' pt0 pt1; b = mid' pt1 pt2; c = mid' pt2 pt3;
             d = mid' a b; e = mid' b c
         in mid' d e)
      else
        (let cx = (fst pt1 - fst pt0) * 3;
             cy = (snd pt1 - snd pt0) * 3;
             bx = (fst pt2 - fst pt1) * 3 - cx;
             by = (snd pt2 - snd pt1) * 3 - cy;
             ax = fst pt3 - fst pt0 - cx - bx;
             ay = snd pt3 - snd pt0 - cy - by;
             t3 = t ^ 3;
             t2 = t * t;
             x = ax * t3 + bx * t2 + cx * t + fst pt0;
             y = ay * t3 + by * t2 + cy * t + snd pt0
         in (x, y)))"

text \<open>
  \<^verbatim>\<open>_estimateCubicCurveLength\<close> is only ever called without its \<^verbatim>\<open>precision\<close>
  argument, so the default 10 is fixed here. The second loop adds the chord lengths
  from left to right, starting from 0.
\<close>

definition precision :: nat where
  "precision = 10"

definition estimateCubicCurveLength' :: "point \<Rightarrow> point \<Rightarrow> point \<Rightarrow> point \<Rightarrow> real" where
  "estimateCubicCurveLength' pt0 pt1 pt2 pt3 =
     (let step = 1 / real precision;
          points = map (\<lambda>i. getCubicPoint' (real i * step) pt0 pt1 pt2 pt3) [0..<precision + 1]
      in foldl (\<lambda>length i. length + distance (points ! i) (points ! (i + 1)))
               0 [0..<length points - 1])"

subsection \<open>The pen\<close>

text \<open>
  One record holds what \<^verbatim>\<open>FlattenPen.__init__\<close> sets on \<^verbatim>\<open>self\<close>. A method takes
  the pen and returns it updated, or \<open>Inl (e, self')\<close> when the exception \<open>e\<close> is raised
  with the pen left as \<open>self'\<close>. Every list the source mutates in place (\<^verbatim>\<open>contours\<close>,
  a Contour, a \<^verbatim>\<open>flat\<close>) is created by the pen and reachable along one path only, so
  in-place mutation and the update of a value agree.

  \<^verbatim>\<open>BasePen\<close> keeps a current point of its own, which no method below reads; it is not
  part of the record.
\<close>

record FlattenPen =
  scale :: real
  approximateSegmentLength :: real
  qCurveConversion :: "point list option"
  contours :: "Contour list"

type_synonym outcome = "(error \<times> FlattenPen) + FlattenPen"

definition init :: "real \<Rightarrow> real \<Rightarrow> FlattenPen" where
  "init sc asl =
     \<lparr>scale = sc, approximateSegmentLength = asl, qCurveConversion = None, contours = []\<rparr>"

definition prepPoint' :: "FlattenPen \<Rightarrow> point \<Rightarrow> ipoint" where
  "prepPoint' self pt =
     (let x = fst pt; y = snd pt;
          x = x * scale self;
          y = y * scale self;
          x = py_int (py_round x);
          y = py_int (py_round y)
      in (x, y))"

text \<open>\<^verbatim>\<open>self.contours[-1].addSegment(...)\<close>, once \<^verbatim>\<open>self.contours\<close> is known not to be empty.\<close>

definition addSegment_last ::
  "FlattenPen \<Rightarrow> segtype \<Rightarrow> point list \<Rightarrow> ipoint list option \<Rightarrow> FlattenPen" where
  "addSegment_last self ty orig fl =
     self\<lparr>contours := butlast (contours self) @ [addSegment (last (contours self)) ty orig fl]\<rparr>"

text \<open>\<^verbatim>\<open>self.contours[-1][-1].original[-1]\<close>; \<open>None\<close> when one of the three indexings fails.\<close>

definition currentPoint :: "FlattenPen \<Rightarrow> point option" where
  "currentPoint self =
     (case idx_last (contours self) of None \<Rightarrow> None
      | Some c \<Rightarrow> (case idx_last c of None \<Rightarrow> None
         | Some seg \<Rightarrow> idx_last (original seg)))"

definition moveTo' :: "FlattenPen \<Rightarrow> point \<Rightarrow> outcome" where
  "moveTo' self pt =
     (let self1 = self\<lparr>contours := contours self @ [[]]\<rparr>
      in Inr (addSegment_last self1 Move [pt] (Some [prepPoint' self pt])))"

definition lineTo' :: "FlattenPen \<Rightarrow> point \<Rightarrow> outcome" where
  "lineTo' self pt =
     (case currentPoint self of None \<Rightarrow> Inl (IndexError, self)
      | Some cur \<Rightarrow>
          if pt = cur then Inr self
          else Inr (addSegment_last self Line [pt] (Some [prepPoint' self pt])))"

text \<open>
  The public methods of \<^verbatim>\<open>BasePen\<close> call the method of the same name with an underscore
  and then store their own current point. \<^verbatim>\<open>curveTo\<close> with three points calls
  \<^verbatim>\<open>_curveToOne\<close>; \<^verbatim>\<open>qCurveTo\<close> with one off-curve and one on-curve point calls
  \<^verbatim>\<open>_qCurveToOne\<close> once.
\<close>

definition moveTo :: "FlattenPen \<Rightarrow> point \<Rightarrow> outcome" where
  "moveTo self pt = moveTo' self pt"

definition lineTo :: "FlattenPen \<Rightarrow> point \<Rightarrow> outcome" where
  "lineTo self pt = lineTo' self pt"

text \<open>Lines 49 and 50, for a divisor that is not zero.\<close>

definition maxSteps :: "real \<Rightarrow> point \<Rightarrow> point \<Rightarrow> point \<Rightarrow> point \<Rightarrow> int" where
  "maxSteps asl cur pt1 pt2 pt3 =
     (let est = estimateCubicCurveLength' cur pt1 pt2 pt3 / asl
      in py_int (py_round est))"

text \<open>
  \<^verbatim>\<open>if self._qCurveConversion:\<close> holds for a list that is not empty. The loop runs over
  \<^verbatim>\<open>range(0, maxSteps + 1)[1:]\<close>, the integers from 1 to \<^verbatim>\<open>maxSteps\<close>, and appends
  one point each time to the \<^verbatim>\<open>flat\<close> of the Segment just added, which starts empty: the
  Segment is given the finished list here. Dividing by an \<^verbatim>\<open>approximateSegmentLength\<close>
  of zero raises.
\<close>

definition curveToOne' :: "FlattenPen \<Rightarrow> point \<Rightarrow> point \<Rightarrow> point \<Rightarrow> outcome" where
  "curveToOne' self pt1 pt2 pt3 =
     (case currentPoint self of None \<Rightarrow> Inl (IndexError, self)
      | Some cur \<Rightarrow>
          let falseCurve = (pt1 = cur \<and> pt2 = pt3)
          in if falseCurve then lineTo self pt3
             else if approximateSegmentLength self = 0 then Inl (ZeroDivisionError, self)
             else
               let n = maxSteps (approximateSegmentLength self) cur pt1 pt2 pt3
               in if n < 1 then lineTo self pt3
                  else
                    let (ty, orig) =
                          (case qCurveConversion self of
                             None \<Rightarrow> (Curve, [pt1, pt2, pt3])
                           | Some q \<Rightarrow> if q \<noteq> [] then (QCurve, q) else (Curve, [pt1, pt2, pt3]));
                        step = 1 / real_of_int n;
                        flattened =
                          map (\<lambda>i. prepPoint' self
                                     (getCubicPoint' (real_of_int i * step) cur pt1 pt2 pt3))
                              [1..n]
                    in Inr (addSegment_last self ty orig (Some flattened)))"

text \<open>
  Line 68 calls \<^verbatim>\<open>BasePen._qCurveToOne(pt1, pt2)\<close> on the class, without \<^verbatim>\<open>self\<close>:
  the first argument is a point where an instance is required, and the call raises
  TypeError before the base class runs. Line 67 has stored the pair by then, and line 69,
  which would clear it, is not reached.
\<close>

definition qCurveToOne' :: "FlattenPen \<Rightarrow> point \<Rightarrow> point \<Rightarrow> outcome" where
  "qCurveToOne' self pt1 pt2 =
     (let self1 = self\<lparr>qCurveConversion := Some [pt1, pt2]\<rparr>
      in Inl (TypeError, self1))"

definition curveTo :: "FlattenPen \<Rightarrow> point \<Rightarrow> point \<Rightarrow> point \<Rightarrow> outcome" where
  "curveTo self pt1 pt2 pt3 = curveToOne' self pt1 pt2 pt3"

definition qCurveTo :: "FlattenPen \<Rightarrow> point \<Rightarrow> point \<Rightarrow> outcome" where
  "qCurveTo self pt1 pt2 = qCurveToOne' self pt1 pt2"

text \<open>
  \<^verbatim>\<open>_endPath\<close> reads \<^verbatim>\<open>contours[-1][0].flat[0]\<close>, then \<^verbatim>\<open>contours[-1][-1].flat[-1]\<close>,
  and deletes the last element of the last Segment's \<^verbatim>\<open>flat\<close> when the two are equal.
\<close>

definition del_last_flat :: "FlattenPen \<Rightarrow> FlattenPen" where
  "del_last_flat self =
     (let c = last (contours self); seg = last c
      in self\<lparr>contours := butlast (contours self) @
                  [butlast c @ [seg\<lparr>flat := butlast (flat seg)\<rparr>]]\<rparr>)"

definition endPath' :: "FlattenPen \<Rightarrow> outcome" where
  "endPath' self =
     (case idx_last (contours self) of None \<Rightarrow> Inl (IndexError, self)
      | Some c \<Rightarrow> (case idx_first c of None \<Rightarrow> Inl (IndexError, self)
         | Some seg0 \<Rightarrow> (case idx_first (flat seg0) of None \<Rightarrow> Inl (IndexError, self)
            | Some firstPoint \<Rightarrow> (case idx_last c of None \<Rightarrow> Inl (IndexError, self)
               | Some seg \<Rightarrow> (case idx_last (flat seg) of None \<Rightarrow> Inl (IndexError, self)
                  | Some lastPoint \<Rightarrow>
                      if firstPoint = lastPoint then Inr (del_last_flat self)
                      else Inr self)))))"

definition endPath :: "FlattenPen \<Rightarrow> outcome" where
  "endPath self = endPath' self"

definition closePath' :: "FlattenPen \<Rightarrow> outcome" where
  "closePath' self =
     (case idx_last (contours self) of None \<Rightarrow> Inl (IndexError, self)
      | Some c \<Rightarrow> (case idx_first c of None \<Rightarrow> Inl (IndexError, self)
         | Some seg0 \<Rightarrow> (case idx_last (original seg0) of None \<Rightarrow> Inl (IndexError, self)
            | Some firstPoint \<Rightarrow>
                (case lineTo self firstPoint of
                   Inl e \<Rightarrow> Inl e
                 | Inr self1 \<Rightarrow> endPath self1))))"

definition closePath :: "FlattenPen \<Rightarrow> outcome" where
  "closePath self = closePath' self"

type_synonym transformation = "real \<times> real \<times> real \<times> real \<times> real \<times> real"

definition addComponent :: "FlattenPen \<Rightarrow> string \<Rightarrow> transformation \<Rightarrow> outcome" where
  "addComponent self glyphName tr = Inr self"

subsection \<open>Command streams\<close>

datatype command =
    MoveTo point
  | LineTo point
  | CurveTo point point point
  | QCurveTo point point
  | ClosePath
  | EndPath
  | AddComponent string transformation

fun dispatch :: "FlattenPen \<Rightarrow> command \<Rightarrow> outcome" where
  "dispatch self (MoveTo pt) = moveTo self pt"
| "dispatch self (LineTo pt) = lineTo self pt"
| "dispatch self (CurveTo pt1 pt2 pt3) = curveTo self pt1 pt2 pt3"
| "dispatch self (QCurveTo pt1 pt2) = qCurveTo self pt1 pt2"
| "dispatch self ClosePath = closePath self"
| "dispatch self EndPath = endPath self"
| "dispatch self (AddComponent glyphName tr) = addComponent self glyphName tr"

text \<open>The caller issues the commands one after the other; an exception ends the pass.\<close>

fun run :: "FlattenPen \<Rightarrow> command list \<Rightarrow> outcome" where
  "run self [] = Inr self"
| "run self (c # cs) = (case dispatch self c of Inl e \<Rightarrow> Inl e | Inr self1 \<Rightarrow> run self1 cs)"

text \<open>The pen as the exception, if any, leaves it.\<close>

definition pen_after :: "outcome \<Rightarrow> FlattenPen" where
  "pen_after r = (case r of Inl (e, self1) \<Rightarrow> self1 | Inr self1 \<Rightarrow> self1)"

subsection \<open>Predicates on command streams\<close>

text \<open>
  A stream is well formed when each contour is opened by a move and finalized by a close
  or an end before the next move; the flag says whether a contour is open.
\<close>

fun wellformed_from :: "bool \<Rightarrow> command list \<Rightarrow> bool" where
  "wellformed_from inside [] = (\<not> inside)"
| "wellformed_from inside (MoveTo pt # cs) = (\<not> inside \<and> wellformed_from True cs)"
| "wellformed_from inside (LineTo pt # cs) = (inside \<and> wellformed_from True cs)"
| "wellformed_from inside (CurveTo pt1 pt2 pt3 # cs) = (inside \<and> wellformed_from True cs)"
| "wellformed_from inside (QCurveTo pt1 pt2 # cs) = (inside \<and> wellformed_from True cs)"
| "wellformed_from inside (ClosePath # cs) = (inside \<and> wellformed_from False cs)"
| "wellformed_from inside (EndPath # cs) = (inside \<and> wellformed_from False cs)"
| "wellformed_from inside (AddComponent glyphName tr # cs) = wellformed_from inside cs"

definition wellformed :: "command list \<Rightarrow> bool" where
  "wellformed cs = wellformed_from False cs"

fun opens_contour :: "command \<Rightarrow> bool" where
  "opens_contour (MoveTo pt) = True"
| "opens_contour c = False"

text \<open>The commands whose method starts by indexing \<^verbatim>\<open>self.contours[-1]\<close>.\<close>

fun needs_contour :: "command \<Rightarrow> bool" where
  "needs_contour (LineTo pt) = True"
| "needs_contour (CurveTo pt1 pt2 pt3) = True"
| "needs_contour ClosePath = True"
| "needs_contour EndPath = True"
| "needs_contour c = False"

text \<open>
  Two pens have the same number of contours and agree on every contour but the most
  recently created one.
\<close>

definition same_earlier :: "FlattenPen \<Rightarrow> FlattenPen \<Rightarrow> bool" where
  "same_earlier self self1 \<longleftrightarrow>
     length (contours self1) = length (contours self) \<and>
     butlast (contours self1) = butlast (contours self)"

text \<open>Every Contour of the pen has a first Segment, and its type is "move".\<close>

definition starts_with_move :: "FlattenPen \<Rightarrow> bool" where
  "starts_with_move self \<longleftrightarrow>
     list_all (\<lambda>c. case c of [] \<Rightarrow> False | seg0 # _ \<Rightarrow> type seg0 = Move) (contours self)"

section \<open>Properties\<close>

subsection \<open>Rounding and arc length\<close>

lemma py_int_py_round:
  "py_int (py_round x) = (if 0 \<le> x then \<lfloor>x + 1/2\<rfloor> else - \<lfloor>- x + 1/2\<rfloor>)"
proof (cases "0 \<le> x")
  case True
  then have "0 \<le> \<lfloor>x + 1/2\<rfloor>" by simp
  then show ?thesis using True by (simp add: py_int_def py_round_def)
next
  case False
  then have "0 \<le> \<lfloor>- x + 1/2\<rfloor>" by simp
  then show ?thesis using False
    by (simp add: py_int_def py_round_def ceiling_minus del: zero_le_floor)
qed

lemma floor_half_near: "\<bar>real_of_int \<lfloor>x + 1/2\<rfloor> - x\<bar> \<le> 1/2"
proof -
  have "real_of_int \<lfloor>x + 1/2\<rfloor> \<le> x + 1/2" by (rule of_int_floor_le)
  moreover have "x + 1/2 < real_of_int \<lfloor>x + 1/2\<rfloor> + 1" by linarith
  ultimately show ?thesis by linarith
qed

lemma py_int_py_round_near: "\<bar>real_of_int (py_int (py_round x)) - x\<bar> \<le> 1/2"
proof (cases "0 \<le> x")
  case True
  then show ?thesis using floor_half_near [of x] by (simp add: py_int_py_round)
next
  case False
  have "\<bar>- real_of_int \<lfloor>- x + 1/2\<rfloor> - x\<bar> = \<bar>real_of_int \<lfloor>- x + 1/2\<rfloor> - (- x)\<bar>"
    by (simp add: abs_minus_commute)
  then show ?thesis using False floor_half_near [of "- x"]
    by (simp only: py_int_py_round if_False of_int_minus)
qed

lemma floor_half_mono: "x \<le> y \<Longrightarrow> \<lfloor>x + 1/2\<rfloor> \<le> \<lfloor>y + 1/2 :: real\<rfloor>"
  by (simp add: floor_mono)

lemma py_int_py_round_mono:
  assumes "x \<le> y"
  shows "py_int (py_round x) \<le> py_int (py_round y)"
proof -
  consider "0 \<le> x" | "x < 0" "0 \<le> y" | "y < 0" using assms by linarith
  then show ?thesis
  proof cases
    case 1
    then show ?thesis using assms by (simp add: py_int_py_round floor_half_mono)
  next
    case 2
    have "- \<lfloor>- x + 1/2\<rfloor> \<le> 0" using 2 by simp
    also have "0 \<le> \<lfloor>y + 1/2\<rfloor>" using 2 by simp
    finally show ?thesis using 2 by (simp add: py_int_py_round)
  next
    case 3
    then have "x < 0" using assms by simp
    moreover have "\<lfloor>- y + 1/2\<rfloor> \<le> \<lfloor>- x + 1/2\<rfloor>" using assms by (simp add: floor_mono)
    ultimately show ?thesis using 3 by (simp add: py_int_py_round)
  qed
qed

lemma distance_nonneg: "0 \<le> distance p q"
  by (simp add: distance_def)

lemma foldl_add_nonneg:
  "(\<And>i. 0 \<le> f i) \<Longrightarrow> (0::real) \<le> a \<Longrightarrow> 0 \<le> foldl (\<lambda>acc i. acc + f i) a xs"
  by (induction xs arbitrary: a) simp_all

lemma estimate_nonneg: "0 \<le> estimateCubicCurveLength' p0 p1 p2 p3"
  unfolding estimateCubicCurveLength'_def Let_def
  by (rule foldl_add_nonneg) (simp_all add: distance_nonneg)

text \<open>A cubic that runs along the x axis from 0 to 3 at constant speed.\<close>

lemma distance_horizontal: "distance (a, y) (b, y) = \<bar>a - b\<bar>"
  by (simp add: distance_def)

lemma upt_precision: "[0..<precision + 1] = [0, 1, 2, 3, 4, 5, 6, 7, 8, 9, 10]"
  unfolding precision_def by (simp add: upt_rec)

lemma points_axis:
  "map (\<lambda>i. getCubicPoint' (real i * (1 / real precision)) (0, 0) (1, 0) (2, 0) (3, 0))
       [0..<precision + 1]
   = [(0, 0), (3 / 10, 0), (3 / 5, 0), (9 / 10, 0), (6 / 5, 0), (3 / 2, 0),
      (9 / 5, 0), (21 / 10, 0), (12 / 5, 0), (27 / 10, 0), (3, 0)]"
  unfolding upt_precision
  by (simp add: getCubicPoint'_def mid'_def precision_def power3_eq_cube)

lemma estimate_axis: "estimateCubicCurveLength' (0, 0) (1, 0) (2, 0) (3, 0) = 3"
  unfolding estimateCubicCurveLength'_def Let_def points_axis
  by (simp add: upt_rec distance_horizontal)

lemma maxSteps_axis:
  "maxSteps 1 (0, 0) (1, 0) (2, 0) (3, 0) = 3"
  "maxSteps 2 (0, 0) (1, 0) (2, 0) (3, 0) = 2"
  unfolding maxSteps_def estimate_axis by (simp_all add: py_int_def py_round_def)

subsection \<open>Evaluation of the line commands\<close>

lemmas line_defs = moveTo_def moveTo'_def lineTo_def lineTo'_def closePath_def closePath'_def
  endPath_def endPath'_def addSegment_last_def addSegment_def new_Segment_def currentPoint_def
  idx_last_def idx_first_def prepPoint'_def py_int_def py_round_def init_def del_last_flat_def
  pen_after_def

subsection \<open>Streams and frames\<close>

lemma run_append:
  "run self (xs @ ys) = (case run self xs of Inl e \<Rightarrow> Inl e | Inr self1 \<Rightarrow> run self1 ys)"
  by (induction xs arbitrary: self) (simp_all split: sum.splits)

lemma get_flattened_snoc: "get_flattened (c @ [seg]) = get_flattened c @ flat seg"
  by (simp add: get_flattened_def)

lemma get_flattened_del_last:
  assumes "c = bs @ [seg]" and "flat seg \<noteq> []"
  shows "get_flattened (butlast c @ [seg\<lparr>flat := butlast (flat seg)\<rparr>])
           = butlast (get_flattened c)"
  using assms by (simp add: get_flattened_snoc butlast_append)

lemma idx_last_Some: "idx_last xs = Some x \<Longrightarrow> xs = butlast xs @ [x]"
  by (auto simp: idx_last_def split: if_splits)

lemma no_contour_raises:
  assumes "contours self = []" and "needs_contour c"
  shows "dispatch self c = Inl (IndexError, self)"
  using assms
  by (cases c)
     (simp_all add: lineTo_def lineTo'_def curveTo_def curveToOne'_def closePath_def
        closePath'_def endPath_def endPath'_def currentPoint_def idx_last_def)

lemma no_contour_step:
  assumes "contours self = []" and "\<not> opens_contour c"
  shows "contours (pen_after (dispatch self c)) = []"
  using assms
  by (cases c)
     (simp_all add: lineTo_def lineTo'_def curveTo_def curveToOne'_def closePath_def
        closePath'_def endPath_def endPath'_def currentPoint_def idx_last_def
        qCurveTo_def qCurveToOne'_def addComponent_def pen_after_def)

lemma same_earlier_refl: "same_earlier self self"
  by (simp add: same_earlier_def)

lemma same_earlier_trans:
  "same_earlier a b \<Longrightarrow> same_earlier b c \<Longrightarrow> same_earlier a c"
  by (simp add: same_earlier_def)

lemma same_earlier_addSegment_last:
  "contours self \<noteq> [] \<Longrightarrow> same_earlier self (addSegment_last self ty orig fl)"
  by (simp add: same_earlier_def addSegment_last_def)

lemma currentPoint_contours: "currentPoint self = Some p \<Longrightarrow> contours self \<noteq> []"
  by (auto simp: currentPoint_def idx_last_def split: if_splits)

lemma lineTo_frame: "same_earlier self (pen_after (lineTo self pt))"
  by (auto simp: lineTo_def lineTo'_def pen_after_def same_earlier_refl
      same_earlier_addSegment_last currentPoint_contours split: option.splits)

lemma curveTo_frame: "same_earlier self (pen_after (curveTo self pt1 pt2 pt3))"
proof (cases "currentPoint self")
  case None
  then show ?thesis
    by (simp add: curveTo_def curveToOne'_def pen_after_def same_earlier_refl)
next
  case (Some cur)
  have ne: "contours self \<noteq> []" using Some by (rule currentPoint_contours)
  show ?thesis
    using Some lineTo_frame [of self pt3] same_earlier_addSegment_last [OF ne]
    by (simp add: curveTo_def curveToOne'_def Let_def same_earlier_refl split_beta)
       (simp add: pen_after_def same_earlier_refl)
qed

lemma qCurveTo_frame: "same_earlier self (pen_after (qCurveTo self pt1 pt2))"
  by (simp add: qCurveTo_def qCurveToOne'_def pen_after_def same_earlier_def)

lemma endPath_frame: "same_earlier self (pen_after (endPath self))"
  by (auto simp: endPath_def endPath'_def pen_after_def same_earlier_def del_last_flat_def
      idx_last_def Let_def split: option.splits if_splits)

lemma closePath_frame: "same_earlier self (pen_after (closePath self))"
proof (cases "lineTo self (last (original (hd (last (contours self)))))")
  case (Inl a)
  then show ?thesis
    using lineTo_frame [of self "last (original (hd (last (contours self))))"]
    by (auto simp: closePath_def closePath'_def pen_after_def same_earlier_refl idx_last_def
        idx_first_def split: option.splits list.splits if_splits)
next
  case (Inr self1)
  then have "same_earlier self self1"
    using lineTo_frame [of self "last (original (hd (last (contours self))))"]
    by (simp add: pen_after_def)
  then have "same_earlier self (pen_after (endPath self1))"
    using endPath_frame [of self1] by (rule same_earlier_trans)
  then show ?thesis using Inr
    by (auto simp: closePath_def closePath'_def pen_after_def same_earlier_refl idx_last_def
        idx_first_def split: option.splits list.splits if_splits)
qed

lemma moveTo_frame:
  "\<exists>c. contours (pen_after (moveTo self pt)) = contours self @ [c]"
  by (simp add: moveTo_def moveTo'_def pen_after_def addSegment_last_def)

lemma dispatch_same_earlier:
  "\<not> opens_contour c \<Longrightarrow> same_earlier self (pen_after (dispatch self c))"
proof (cases c)
  case (AddComponent glyphName tr)
  then show ?thesis by (simp add: addComponent_def pen_after_def same_earlier_refl)
qed (simp_all add: lineTo_frame curveTo_frame qCurveTo_frame endPath_frame closePath_frame)

lemma dispatch_keeps_config:
  assumes "dispatch self c = Inr self1"
  shows "qCurveConversion self1 = qCurveConversion self \<and>
         approximateSegmentLength self1 = approximateSegmentLength self \<and>
         scale self1 = scale self"
proof (cases c)
  case (MoveTo pt)
  then show ?thesis using assms by (auto simp: moveTo_def moveTo'_def addSegment_last_def)
next
  case (LineTo pt)
  then show ?thesis using assms
    by (auto simp: lineTo_def lineTo'_def addSegment_last_def split: option.splits if_splits)
next
  case (CurveTo pt1 pt2 pt3)
  then show ?thesis using assms
    by (auto simp: curveTo_def curveToOne'_def lineTo_def lineTo'_def addSegment_last_def
        Let_def split_beta split: option.splits if_splits)
next
  case (QCurveTo pt1 pt2)
  then show ?thesis using assms by (simp add: qCurveTo_def qCurveToOne'_def)
next
  case ClosePath
  then show ?thesis using assms
    by (auto simp: closePath_def closePath'_def endPath_def endPath'_def lineTo_def lineTo'_def
        addSegment_last_def del_last_flat_def Let_def
        split: option.splits if_splits sum.splits)
next
  case EndPath
  then show ?thesis using assms
    by (auto simp: endPath_def endPath'_def del_last_flat_def Let_def
        split: option.splits if_splits)
next
  case (AddComponent g t)
  then show ?thesis using assms by (simp add: addComponent_def)
qed

lemma run_keeps_config:
  assumes "run self cs = Inr self1"
  shows "qCurveConversion self1 = qCurveConversion self \<and>
         approximateSegmentLength self1 = approximateSegmentLength self \<and>
         scale self1 = scale self"
  using assms
proof (induction cs arbitrary: self)
  case Nil
  then show ?case by simp
next
  case (Cons c cs)
  then obtain s where s: "dispatch self c = Inr s" "run s cs = Inr self1"
    by (auto split: sum.splits)
  show ?case using dispatch_keeps_config [OF s(1)] Cons.IH [OF s(2)] by simp
qed

lemma last_upto: "1 \<le> n \<Longrightarrow> last [1..n] = n"
  by (simp add: upto_rec2)

subsection \<open>The first Segment of a Contour\<close>

text \<open>
  On every stream, returning or raising, each Contour starts with a Move Segment: only
  \<^verbatim>\<open>_moveTo\<close> creates a Contour, and Segments are only added at the end.
\<close>

lemma swm_addSegment_last:
  assumes "starts_with_move self" and "contours self \<noteq> []"
  shows "starts_with_move (addSegment_last self ty orig fl)"
proof -
  obtain cs c where "contours self = cs @ [c]"
    using assms(2) by (cases "contours self" rule: rev_cases) auto
  then show ?thesis using assms(1)
    by (auto simp: starts_with_move_def addSegment_last_def addSegment_def split: list.splits)
qed

lemma swm_del_last_flat:
  assumes "starts_with_move self" and "contours self \<noteq> []"
  shows "starts_with_move (del_last_flat self)"
proof -
  obtain cs c where c: "contours self = cs @ [c]"
    using assms(2) by (cases "contours self" rule: rev_cases) auto
  then have "c \<noteq> []" using assms(1) by (auto simp: starts_with_move_def)
  then obtain bs seg where "c = bs @ [seg]" by (cases c rule: rev_cases) auto
  then show ?thesis using assms(1) c
    by (cases bs) (auto simp: starts_with_move_def del_last_flat_def)
qed

lemma swm_lineTo:
  "starts_with_move self \<Longrightarrow> starts_with_move (pen_after (lineTo self pt))"
  by (auto simp: lineTo_def lineTo'_def pen_after_def swm_addSegment_last currentPoint_contours
      split: option.splits)

lemma swm_endPath:
  "starts_with_move self \<Longrightarrow> starts_with_move (pen_after (endPath self))"
  by (auto simp: endPath_def endPath'_def pen_after_def swm_del_last_flat idx_last_def
      split: option.splits if_splits)

lemma swm_dispatch:
  assumes "starts_with_move self"
  shows "starts_with_move (pen_after (dispatch self c))"
proof (cases c)
  case (MoveTo pt)
  then show ?thesis using assms
    by (simp add: moveTo_def moveTo'_def pen_after_def starts_with_move_def addSegment_last_def
        addSegment_def new_Segment_def)
next
  case (LineTo pt)
  then show ?thesis using assms by (simp add: swm_lineTo)
next
  case (CurveTo pt1 pt2 pt3)
  show ?thesis
  proof (cases "currentPoint self")
    case None
    then show ?thesis using assms CurveTo
      by (simp add: curveTo_def curveToOne'_def pen_after_def)
  next
    case (Some cur)
    have ne: "contours self \<noteq> []" using Some by (rule currentPoint_contours)
    show ?thesis
      using Some CurveTo swm_lineTo [OF assms, of pt3] swm_addSegment_last [OF assms ne] assms
      by (simp add: curveTo_def curveToOne'_def Let_def split_beta)
         (simp add: pen_after_def)
  qed
next
  case (QCurveTo pt1 pt2)
  then show ?thesis using assms
    by (simp add: qCurveTo_def qCurveToOne'_def pen_after_def starts_with_move_def)
next
  case ClosePath
  let ?p = "last (original (hd (last (contours self))))"
  have l: "starts_with_move (pen_after (lineTo self ?p))" using assms by (rule swm_lineTo)
  show ?thesis
  proof (cases "lineTo self ?p")
    case (Inl a)
    then show ?thesis using ClosePath assms l
      by (auto simp: closePath_def closePath'_def pen_after_def idx_last_def idx_first_def
          split: option.splits list.splits if_splits)
  next
    case (Inr self1)
    then have "starts_with_move self1" using l by (simp add: pen_after_def)
    then have "starts_with_move (pen_after (endPath self1))" by (rule swm_endPath)
    then show ?thesis using ClosePath assms Inr
      by (auto simp: closePath_def closePath'_def pen_after_def idx_last_def idx_first_def
          split: option.splits list.splits if_splits)
  qed
next
  case EndPath
  then show ?thesis using assms by (simp add: swm_endPath)
next
  case (AddComponent g t)
  then show ?thesis using assms by (simp add: addComponent_def pen_after_def)
qed

lemma swm_run:
  "starts_with_move self \<Longrightarrow> starts_with_move (pen_after (run self cs))"
proof (induction cs arbitrary: self)
  case Nil
  then show ?case by (simp add: pen_after_def)
next
  case (Cons c cs)
  show ?case
  proof (cases "dispatch self c")
    case (Inl a)
    then show ?thesis using swm_dispatch [OF Cons.prems, of c] by simp
  next
    case (Inr self1)
    then have "starts_with_move self1"
      using swm_dispatch [OF Cons.prems, of c] by (simp add: pen_after_def)
    then show ?thesis using Cons.IH Inr by simp
  qed
qed

lemma first_segment_is_move: "starts_with_move (pen_after (run (init sc asl) cs))"
  by (rule swm_run) (simp add: starts_with_move_def init_def)

subsection \<open>The claims\<close>

text \<open>
  C1. A cubic that is not a false curve, drawn in an open contour by a pen that has
  raised no exception, with an \<^verbatim>\<open>approximateSegmentLength\<close> \<open>S\<close> other than zero:
  the step count is \<open>round (L / S)\<close> for the estimated length \<open>L\<close> from the current
  point; below 1 the result is that of \<open>lineTo pt3\<close>; otherwise one Curve Segment is
  appended to the last contour, its original \<open>[pt1, pt2, pt3]\<close>, its flat list the
  transformed samples at \<open>i / stepCount\<close> for \<open>i\<close> from 1 to the step count, in
  order: as many points as the step count, the last one the transform of \<open>pt3\<close>.
\<close>

theorem curveTo_subdivision:
  assumes "run (init sc asl) cmds = Inr self"
    and "asl \<noteq> 0"
    and "currentPoint self = Some cur"
    and "\<not> (pt1 = cur \<and> pt2 = pt3)"
  shows "let stepCount = py_int (py_round (estimateCubicCurveLength' cur pt1 pt2 pt3 / asl));
             samples = map (\<lambda>i. prepPoint' self
                              (getCubicPoint' (real_of_int i / real_of_int stepCount)
                                 cur pt1 pt2 pt3))
                           [1..stepCount]
         in curveTo self pt1 pt2 pt3 =
              (if stepCount < 1 then lineTo self pt3
               else Inr (self\<lparr>contours := butlast (contours self) @
                           [last (contours self) @
                            [\<lparr>type = Curve, original = [pt1, pt2, pt3], flat = samples,
                              final = None\<rparr>]]\<rparr>))
            \<and> (1 \<le> stepCount \<longrightarrow>
                 length samples = nat stepCount \<and> last samples = prepPoint' self pt3)"
proof -
  have cfg: "qCurveConversion self = None" "approximateSegmentLength self = asl"
    using run_keeps_config [OF assms(1)] by (simp_all add: init_def)
  let ?n = "py_int (py_round (estimateCubicCurveLength' cur pt1 pt2 pt3 / asl))"
  let ?samples = "map (\<lambda>i. prepPoint' self
                      (getCubicPoint' (real_of_int i / real_of_int ?n) cur pt1 pt2 pt3)) [1..?n]"
  have nf: "(pt1 = cur \<and> pt2 = pt3) = False"
    using assms(4) by simp
  have main: "curveTo self pt1 pt2 pt3 =
      (if ?n < 1 then lineTo self pt3
       else Inr (self\<lparr>contours := butlast (contours self) @
                   [last (contours self) @
                    [\<lparr>type = Curve, original = [pt1, pt2, pt3], flat = ?samples,
                      final = None\<rparr>]]\<rparr>))"
    using assms(2,3) cfg
    by (simp add: curveTo_def curveToOne'_def maxSteps_def Let_def nf
        addSegment_last_def addSegment_def new_Segment_def)
  have lst: "last ?samples = prepPoint' self pt3" if "1 \<le> ?n"
  proof -
    have "[1..?n] \<noteq> []" using that by simp
    then show ?thesis using that
      by (simp add: last_map last_upto getCubicPoint'_def)
  qed
  show ?thesis
    unfolding Let_def using main lst by simp
qed


theorem curveTo_subdivision_witness:
  "curveTo (pen_after (run (init 1 1) [MoveTo (0, 0)])) (1, 0) (2, 0) (3, 0) =
     Inr \<lparr>scale = 1, approximateSegmentLength = 1, qCurveConversion = None,
          contours = [[\<lparr>type = Move, original = [(0, 0)], flat = [(0, 0)], final = None\<rparr>,
                       \<lparr>type = Curve, original = [(1, 0), (2, 0), (3, 0)],
                        flat = [(1, 0), (2, 0), (3, 0)], final = None\<rparr>]]\<rparr>"
proof -
  let ?self = "\<lparr>scale = 1, approximateSegmentLength = 1, qCurveConversion = None,
      contours = [[\<lparr>type = Move, original = [(0, 0)], flat = [(0, 0)], final = None\<rparr>]]\<rparr>"
  have r: "run (init 1 1) [MoveTo (0, 0)] = Inr ?self"
    by (simp add: line_defs)
  have c: "currentPoint ?self = Some (0, 0)"
    by (simp add: currentPoint_def idx_last_def)
  have n: "py_int (py_round (estimateCubicCurveLength' (0, 0) (1, 0) (2, 0) (3, 0) / 1)) = 3"
    unfolding estimate_axis by (simp add: py_int_def py_round_def)
  have nf: "\<not> ((1, 0) = ((0, 0) :: point) \<and> (2, 0) = ((3, 0) :: point))"
    by simp
  have a: "(1::real) \<noteq> 0" by simp
  have u: "[1..3::int] = [1, 2, 3]" by (simp add: upto_rec1)
  have s: "map (\<lambda>i. prepPoint' ?self
                  (getCubicPoint' (real_of_int i / real_of_int 3) (0, 0) (1, 0) (2, 0) (3, 0)))
             [1..3] = [(1, 0), (2, 0), (3, 0)]"
    unfolding u
    by (simp add: prepPoint'_def getCubicPoint'_def power3_eq_cube py_int_def py_round_def
        Let_def)
  have p: "pen_after (run (init 1 1) [MoveTo (0, 0)]) = ?self"
    unfolding r by (simp add: pen_after_def)
  show ?thesis
    using curveTo_subdivision [OF r a c nf]
    unfolding Let_def n s p
    by simp
qed

text \<open>
  C2. In a well-formed stream every Contour is to start with a Move Segment whose flat
  list has exactly one point, also after End. A contour that consists of its move alone
  is well formed, and ending it deletes the only flat point of the Move Segment. That the
  first Segment is a Move is \<open>first_segment_is_move\<close>.
\<close>

theorem endPath_empties_lone_move:
  "wellformed [MoveTo (0, 0), EndPath]
   \<and> run (init 1 5) [MoveTo (0, 0), EndPath] =
       Inr \<lparr>scale = 1, approximateSegmentLength = 5, qCurveConversion = None,
            contours = [[\<lparr>type = Move, original = [(0, 0)], flat = [], final = None\<rparr>]]\<rparr>"
  by (simp add: wellformed_def line_defs)

text \<open>
  C3. A quadratic command with the off-curve pair \<open>(q1, q2)\<close> is to emit a QCurve Segment
  with original \<open>[q1, q2]\<close> and must not raise. The pen raises TypeError on every
  \<^verbatim>\<open>qCurveTo\<close>, with the pair stored in \<^verbatim>\<open>_qCurveConversion\<close> and no Segment added.
\<close>

theorem qCurveTo_raises:
  "qCurveTo self q1 q2 = Inl (TypeError, self\<lparr>qCurveConversion := Some [q1, q2]\<rparr>)
   \<and> run (init 1 5) [MoveTo (0, 0), QCurveTo (5, 10) (10, 0)] =
       Inl (TypeError,
            \<lparr>scale = 1, approximateSegmentLength = 5,
             qCurveConversion = Some [(5, 10), (10, 0)],
             contours = [[\<lparr>type = Move, original = [(0, 0)], flat = [(0, 0)], final = None\<rparr>]]\<rparr>)"
  by (simp add: qCurveTo_def qCurveToOne'_def line_defs)

text \<open>
  C4. When the first flattened point of the active contour equals its last flattened
  point, End deletes that last point from the flat list of the last Segment and keeps the
  Segment: the flattened polygon loses exactly its final point. Close dispatches a line to
  the last original point of the contour's first Segment and then does what End does. A
  move to (0,0), lines to (10,0) and (10,10) and a close, with scale 1 and segment length
  5, leave the polygon (0,0), (10,0), (10,10).
\<close>

theorem endPath_drops_closing_point:
  assumes "idx_last (contours self) = Some c"
    and "idx_first c = Some seg0" and "idx_first (flat seg0) = Some firstPoint"
    and "idx_last (original seg0) = Some startPoint"
    and "idx_last c = Some seg" and "idx_last (flat seg) = Some lastPoint"
  shows "endPath self =
           Inr (if firstPoint = lastPoint
                then self\<lparr>contours := butlast (contours self) @
                                [butlast c @ [seg\<lparr>flat := butlast (flat seg)\<rparr>]]\<rparr>
                else self)
         \<and> get_flattened (butlast c @ [seg\<lparr>flat := butlast (flat seg)\<rparr>])
             = butlast (get_flattened c)
         \<and> closePath self =
             (case lineTo self startPoint of Inl e \<Rightarrow> Inl e | Inr self1 \<Rightarrow> endPath self1)
         \<and> map get_flattened
              (contours (pen_after
                 (run (init 1 5) [MoveTo (0, 0), LineTo (10, 0), LineTo (10, 10), ClosePath])))
             = [[(0, 0), (10, 0), (10, 10)]]"
proof -
  have l: "last (contours self) = c" "last c = seg"
    using assms(1,5) by (auto simp: idx_last_def split: if_splits)
  have e: "endPath self =
           Inr (if firstPoint = lastPoint
                then self\<lparr>contours := butlast (contours self) @
                                [butlast c @ [seg\<lparr>flat := butlast (flat seg)\<rparr>]]\<rparr>
                else self)"
    using assms l by (simp add: endPath_def endPath'_def del_last_flat_def)
  have "flat seg \<noteq> []"
    using assms(6) by (auto simp: idx_last_def)
  then have f: "get_flattened (butlast c @ [seg\<lparr>flat := butlast (flat seg)\<rparr>])
             = butlast (get_flattened c)"
    using idx_last_Some [OF assms(5)] by (rule get_flattened_del_last [rotated])
  have cl: "closePath self =
             (case lineTo self startPoint of Inl e \<Rightarrow> Inl e | Inr self1 \<Rightarrow> endPath self1)"
    using assms(1,2,4) by (simp add: closePath_def closePath'_def)
  have x: "map get_flattened
              (contours (pen_after
                 (run (init 1 5) [MoveTo (0, 0), LineTo (10, 0), LineTo (10, 10), ClosePath])))
             = [[(0, 0), (10, 0), (10, 10)]]"
    by (simp add: line_defs get_flattened_def)
  show ?thesis using e f cl x by simp
qed

theorem endPath_drops_closing_point_witness:
  "endPath \<lparr>scale = 1, approximateSegmentLength = 5, qCurveConversion = None,
      contours = [[\<lparr>type = Move, original = [(0, 0)], flat = [(0, 0)], final = None\<rparr>,
                   \<lparr>type = Line, original = [(10, 0)], flat = [(10, 0)], final = None\<rparr>,
                   \<lparr>type = Line, original = [(0, 0)], flat = [(0, 0)], final = None\<rparr>]]\<rparr>
   = Inr \<lparr>scale = 1, approximateSegmentLength = 5, qCurveConversion = None,
      contours = [[\<lparr>type = Move, original = [(0, 0)], flat = [(0, 0)], final = None\<rparr>,
                   \<lparr>type = Line, original = [(10, 0)], flat = [(10, 0)], final = None\<rparr>,
                   \<lparr>type = Line, original = [(0, 0)], flat = [], final = None\<rparr>]]\<rparr>"
proof -
  let ?m = "\<lparr>type = Move, original = [(0, 0)], flat = [(0, 0)], final = None\<rparr>"
  let ?l1 = "\<lparr>type = Line, original = [(10, 0)], flat = [(10, 0)], final = None\<rparr>"
  let ?l2 = "\<lparr>type = Line, original = [(0, 0)], flat = [(0, 0)], final = None\<rparr>"
  let ?self = "\<lparr>scale = 1, approximateSegmentLength = 5, qCurveConversion = None,
      contours = [[?m, ?l1, ?l2]]\<rparr>"
  have h1: "idx_last (contours ?self) = Some [?m, ?l1, ?l2]" by (simp add: idx_last_def)
  have h2: "idx_first [?m, ?l1, ?l2] = Some ?m" by (simp add: idx_first_def)
  have h3: "idx_first (flat ?m) = Some (0, 0)" by (simp add: idx_first_def)
  have h4: "idx_last (original ?m) = Some (0, 0)" by (simp add: idx_last_def)
  have h5: "idx_last [?m, ?l1, ?l2] = Some ?l2" by (simp add: idx_last_def)
  have h6: "idx_last (flat ?l2) = Some (0, 0)" by (simp add: idx_last_def)
  show ?thesis
    using endPath_drops_closing_point [OF h1 h2 h3 h4 h5 h6, THEN conjunct1] by simp
qed

text \<open>
  C5. A line to the last original point recorded in the active contour emits no Segment
  and returns the pen as it was; a stream with such a line gives the same result, and so
  the same polygons, as the stream without it.
\<close>

theorem lineTo_current_point_noop:
  assumes "run pen0 pre = Inr self" and "currentPoint self = Some pt"
  shows "lineTo self pt = Inr self
         \<and> run pen0 (pre @ LineTo pt # post) = run pen0 (pre @ post)"
proof -
  have step: "lineTo self pt = Inr self"
    using assms(2) by (simp add: lineTo_def lineTo'_def)
  then show ?thesis using assms(1) by (simp add: run_append)
qed

theorem lineTo_current_point_noop_witness:
  "run (init 1 5) [MoveTo (0, 0), LineTo (10, 0), LineTo (10, 0), LineTo (10, 10), ClosePath]
     = run (init 1 5) [MoveTo (0, 0), LineTo (10, 0), LineTo (10, 10), ClosePath]"
proof -
  let ?self = "\<lparr>scale = 1, approximateSegmentLength = 5, qCurveConversion = None,
      contours = [[\<lparr>type = Move, original = [(0, 0)], flat = [(0, 0)], final = None\<rparr>,
                   \<lparr>type = Line, original = [(10, 0)], flat = [(10, 0)], final = None\<rparr>]]\<rparr>"
  have r: "run (init 1 5) [MoveTo (0, 0), LineTo (10, 0)] = Inr ?self"
    by (simp add: line_defs)
  have c: "currentPoint ?self = Some (10, 0)"
    by (simp add: currentPoint_def idx_last_def)
  show ?thesis
    using lineTo_current_point_noop [OF r c, of "[LineTo (10, 10), ClosePath]"] by simp
qed

text \<open>
  C6. For a fixed curve, the step count computed with a positive
  \<^verbatim>\<open>approximateSegmentLength\<close> \<open>S1\<close> is at least the step count computed with any
  \<open>S2 \<ge> S1\<close>.
\<close>

theorem maxSteps_antimono:
  assumes "0 < S1" and "S1 \<le> S2"
  shows "maxSteps S2 cur pt1 pt2 pt3 \<le> maxSteps S1 cur pt1 pt2 pt3"
proof -
  have "estimateCubicCurveLength' cur pt1 pt2 pt3 / S2
          \<le> estimateCubicCurveLength' cur pt1 pt2 pt3 / S1"
    using assms estimate_nonneg [of cur pt1 pt2 pt3] by (simp add: frac_le)
  then show ?thesis
    unfolding maxSteps_def Let_def by (rule py_int_py_round_mono)
qed

theorem maxSteps_antimono_witness:
  "(0::real) < 1 \<and> (1::real) \<le> 2 \<and>
   maxSteps 2 (0, 0) (1, 0) (2, 0) (3, 0) \<le> maxSteps 1 (0, 0) (1, 0) (2, 0) (3, 0) \<and>
   maxSteps 1 (0, 0) (1, 0) (2, 0) (3, 0) = 3 \<and> maxSteps 2 (0, 0) (1, 0) (2, 0) (3, 0) = 2"
  using maxSteps_antimono [of 1 2 "(0, 0)" "(1, 0)" "(2, 0)" "(3, 0)"]
  by (simp add: maxSteps_axis)

text \<open>
  C7. The cubic evaluator returns exactly \<open>p0\<close> at parameter 0 and exactly \<open>p3\<close> at
  parameter 1, whatever the four control points are.
\<close>

theorem getCubicPoint_endpoints:
  "getCubicPoint' 0 p0 p1 p2 p3 = p0 \<and> getCubicPoint' 1 p0 p1 p2 p3 = p3"
  by (simp add: getCubicPoint'_def)

text \<open>
  C8. The point transform is a function of the point and the scale alone: it returns the
  pair of the rounded products, each an integer within one half of the scaled coordinate,
  and it has no branch that raises. With scale 2, a move to (0,0) and a line to (5,5)
  leave the flat points (0,0) and (10,10).
\<close>

theorem prepPoint_rounds:
  "prepPoint' self (x, y) = (py_int (py_round (x * scale self)), py_int (py_round (y * scale self)))
   \<and> \<bar>real_of_int (fst (prepPoint' self (x, y))) - x * scale self\<bar> \<le> 1/2
   \<and> \<bar>real_of_int (snd (prepPoint' self (x, y))) - y * scale self\<bar> \<le> 1/2
   \<and> run (init 2 5) [MoveTo (0, 0), LineTo (5, 5)] =
       Inr \<lparr>scale = 2, approximateSegmentLength = 5, qCurveConversion = None,
            contours = [[\<lparr>type = Move, original = [(0, 0)], flat = [(0, 0)], final = None\<rparr>,
                         \<lparr>type = Line, original = [(5, 5)], flat = [(10, 10)], final = None\<rparr>]]\<rparr>"
proof -
  have p: "prepPoint' self (x, y) =
             (py_int (py_round (x * scale self)), py_int (py_round (y * scale self)))"
    by (simp add: prepPoint'_def)
  have r: "run (init 2 5) [MoveTo (0, 0), LineTo (5, 5)] =
       Inr \<lparr>scale = 2, approximateSegmentLength = 5, qCurveConversion = None,
            contours = [[\<lparr>type = Move, original = [(0, 0)], flat = [(0, 0)], final = None\<rparr>,
                         \<lparr>type = Line, original = [(5, 5)], flat = [(10, 10)], final = None\<rparr>]]\<rparr>"
    by (simp add: line_defs)
  show ?thesis
    unfolding p fst_conv snd_conv
    using py_int_py_round_near [of "x * scale self"] py_int_py_round_near [of "y * scale self"] r
    by simp
qed

text \<open>
  C9. A line, curve, close or end issued while no move has opened a contour raises
  IndexError and leaves the pen as it was; a stream in which such a command comes before
  any move ends in an exception, with no Contour in the pen.
\<close>

theorem command_before_first_move_raises:
  assumes "contours self = []" and "\<forall>x \<in> set pre. \<not> opens_contour x"
    and "needs_contour c"
  shows "dispatch self c = Inl (IndexError, self) \<and>
         (\<exists>e self1. run self (pre @ c # post) = Inl (e, self1) \<and> contours self1 = [])"
proof
  show "dispatch self c = Inl (IndexError, self)"
    using assms(1,3) by (rule no_contour_raises)
  show "\<exists>e self1. run self (pre @ c # post) = Inl (e, self1) \<and> contours self1 = []"
    using assms(1,2)
  proof (induction pre arbitrary: self)
    case Nil
    then show ?case using no_contour_raises [OF Nil(1) assms(3)] by simp
  next
    case (Cons x pre)
    have nx: "\<not> opens_contour x" using Cons.prems(2) by simp
    show ?case
    proof (cases "dispatch self x")
      case (Inl a)
      then show ?thesis using no_contour_step [OF Cons.prems(1) nx]
        by (cases a) (simp add: pen_after_def)
    next
      case (Inr self1)
      then have "contours self1 = []"
        using no_contour_step [OF Cons.prems(1) nx] by (simp add: pen_after_def)
      then show ?thesis using Cons.IH [of self1] Cons.prems(2) Inr by simp
    qed
  qed
qed

theorem command_before_first_move_raises_witness:
  "dispatch (init 1 5) (LineTo (1, 1)) = Inl (IndexError, init 1 5) \<and>
   (\<exists>e self1. run (init 1 5)
        [AddComponent ''a'' (1, 0, 0, 1, 0, 0), LineTo (1, 1), MoveTo (0, 0)] = Inl (e, self1)
      \<and> contours self1 = [])"
proof -
  have h1: "contours (init 1 5) = []" by (simp add: init_def)
  have h2: "\<forall>x \<in> set [AddComponent ''a'' (1, 0, 0, 1, 0, 0)]. \<not> opens_contour x" by simp
  have h3: "needs_contour (LineTo (1, 1))" by simp
  show ?thesis
    using command_before_first_move_raises [OF h1 h2 h3, of "[MoveTo (0, 0)]"] by simp
qed

text \<open>
  C10. Every command leaves every Contour but the most recently created one as it was,
  whether it returns or raises: a move keeps all the contours there were and appends one;
  every other command keeps the number of contours and all of them but the last;
  \<^verbatim>\<open>addComponent\<close> returns the pen unchanged.
\<close>

theorem commands_keep_earlier_contours:
  "pen_after (dispatch self (AddComponent glyphName tr)) = self
   \<and> take (length (contours self)) (contours (pen_after (dispatch self (MoveTo pt))))
       = contours self
   \<and> length (contours (pen_after (dispatch self (MoveTo pt)))) = length (contours self) + 1
   \<and> take (length (contours self) - 1) (contours (pen_after (dispatch self c)))
       = butlast (contours self)
   \<and> length (contours self) \<le> length (contours (pen_after (dispatch self c)))"
proof -
  obtain c0 where m: "contours (pen_after (moveTo self pt)) = contours self @ [c0]"
    using moveTo_frame by blast
  have a: "pen_after (dispatch self (AddComponent glyphName tr)) = self"
    by (simp add: addComponent_def pen_after_def)
  have g: "take (length (contours self) - 1) (contours (pen_after (dispatch self c)))
             = butlast (contours self)
           \<and> length (contours self) \<le> length (contours (pen_after (dispatch self c)))"
  proof (cases "opens_contour c")
    case True
    then obtain p where "c = MoveTo p" by (cases c) simp_all
    moreover obtain c1 where "contours (pen_after (moveTo self p)) = contours self @ [c1]"
      using moveTo_frame by blast
    ultimately show ?thesis by (simp add: butlast_conv_take)
  next
    case False
    then have "same_earlier self (pen_after (dispatch self c))"
      by (rule dispatch_same_earlier)
    then have "length (contours (pen_after (dispatch self c))) = length (contours self)"
      and "butlast (contours (pen_after (dispatch self c))) = butlast (contours self)"
      by (simp_all add: same_earlier_def)
    then show ?thesis
      using butlast_conv_take [of "contours (pen_after (dispatch self c))"] by simp
  qed
  show ?thesis using m a g by simp
qed

end
